theory Spec2Isabelle
  imports Complex_Main "HOL-Library.Multiset"
begin

section \<open>JavaScript values\<close>

text \<open>
  The components are TypeScript/React functions that turn statistical records into SVG
  geometry. A JavaScript \<open>number\<close> is modelled as a real: rounding of IEEE doubles is not
  modelled, and \<open>NaN\<close> and the infinities appear only where the source tests for them
  (\<open>Number.isFinite\<close> in the similar-players list). A field that may be \<open>null\<close> or
  \<open>undefined\<close> is a \<open>nullable\<close>.
\<close>

datatype 'a nullable = Undefined | Null | Present 'a

text \<open>\<open>v !== null && v !== undefined\<close>\<close>

definition notNullish :: "'a nullable \<Rightarrow> bool" where
  "notNullish v = (case v of Present x \<Rightarrow> True | Null \<Rightarrow> False | Undefined \<Rightarrow> False)"

text \<open>\<open>v ?? d\<close>: the default replaces \<open>null\<close> and \<open>undefined\<close> only.\<close>

fun nullish_or :: "'a nullable \<Rightarrow> 'a \<Rightarrow> 'a" where
  "nullish_or (Present x) d = x"
| "nullish_or Null d = d"
| "nullish_or Undefined d = d"

text \<open>\<open>x || 1\<close> on a number: zero is the only falsy real.\<close>

definition or1 :: "real \<Rightarrow> real" where
  "or1 x = (if x = 0 then 1 else x)"

text \<open>\<open>x || 0\<close> on a number.\<close>

definition or0 :: "real \<Rightarrow> real" where
  "or0 x = (if x = 0 then 0 else x)"


fun math_max :: "'a::linorder list \<Rightarrow> 'a" where
  "math_max [x] = x"
| "math_max (x # y # ys) = max x (math_max (y # ys))"

section \<open>SVG paths\<close>

text \<open>
  The components build the \<open>d\<close> attribute of a path as a string of commands. The model
  keeps the commands and their numeric arguments and drops the formatting, so the empty
  string is the empty command list.
\<close>

datatype cmd =
    M real real
  | L real real
  | Q real real real real
  | T real real
  | C real real real real real real
  | Z

section \<open>CareerChart\<close>

record trajectory_point =
  season :: int
  value_score :: "real nullable"
  annotation :: "string nullable"




text \<open>
  \<open>p.success as number\<close>: a cast with no run-time effect. After the filter the value is
  always present; \<open>null\<close> would count as 0 in arithmetic.
\<close>

fun as_number :: "real nullable \<Rightarrow> real" where
  "as_number (Present x) = x"
| "as_number Null = 0"



subsection \<open>Annotation placement (both versions)\<close>

definition annotationY :: "real \<Rightarrow> real" where
  "annotationY y =
     (let yAbove = y - 60;
          yBelow = y + 40;
          useBelow = (yAbove < 10);
          yPos = (if useBelow then yBelow else yAbove)
      in yPos)"

text \<open>\<open>t.annotation && (...)\<close>: the annotation is drawn when it is a non-empty string.\<close>

definition truthy :: "string nullable \<Rightarrow> bool" where
  "truthy a = (case a of Present s \<Rightarrow> s \<noteq> [] | Null \<Rightarrow> False | Undefined \<Rightarrow> False)"

text \<open>
  One drawn data point: the circle at \<open>(x, y)\<close> and, when the point is annotated, the
  text and the height it is drawn at.
\<close>

record mark =
  m_x :: real
  m_y :: real
  m_annotation :: "(string \<times> real) option"

definition mark_of :: "(int \<Rightarrow> real) \<Rightarrow> (real \<Rightarrow> real) \<Rightarrow> trajectory_point \<Rightarrow> mark" where
  "mark_of xScale yScale t =
     (let x = xScale (season t);
          y = yScale (as_number (value_score t))
      in \<lparr>m_x = x, m_y = y,
          m_annotation =
            (if truthy (annotation t)
             then Some (nullish_or (annotation t) [], annotationY y) else None)\<rparr>)"

subsection \<open>First version: quadratic segments\<close>



definition buildSmoothPath1 :: "(real \<times> real) list \<Rightarrow> cmd list" where
  "buildSmoothPath1 pts =
     (if length pts < 2 then []
      else M (fst (pts ! 0)) (snd (pts ! 0)) #
        concat (map (\<lambda>i.
          (let x0 = fst (pts ! i); y0 = snd (pts ! i);
               x1 = fst (pts ! (i + 1)); y1 = snd (pts ! (i + 1));
               cx = (x0 + x1) / 2;
               cy = (y0 + y1) / 2
           in [Q x0 y0 cx cy, T x1 y1])) [0..<length pts - 1]))"



subsection \<open>Second version: Catmull-Rom segments, comparison series, ticks\<close>



definition clamp :: "int \<Rightarrow> int \<Rightarrow> int \<Rightarrow> int" where
  "clamp v lo hi = max lo (min hi v)"

definition buildSmoothPath2 :: "(real \<times> real) list \<Rightarrow> cmd list" where
  "buildSmoothPath2 pts =
     (if length pts < 2 then []
      else
        let tension = 9 / 10;
            p = (\<lambda>i. pts ! nat (clamp i 0 (int (length pts) - 1)))
        in M (fst (pts ! 0)) (snd (pts ! 0)) #
          map (\<lambda>n.
            (let i = int n;
                 x0 = fst (p (i - 1)); y0 = snd (p (i - 1));
                 x1 = fst (p i); y1 = snd (p i);
                 x2 = fst (p (i + 1)); y2 = snd (p (i + 1));
                 x3 = fst (p (i + 2)); y3 = snd (p (i + 2));
                 c1x = x1 + ((x2 - x0) / 6) * tension;
                 c1y = y1 + ((y2 - y0) / 6) * tension;
                 c2x = x2 - ((x3 - x1) / 6) * tension;
                 c2y = y2 - ((y3 - y1) / 6) * tension
             in C c1x c1y c2x c2y x2 y2)) [0..<length pts - 1])"

text \<open>
  \<open>buildTicks\<close>: the step is a constant of the closure, so the loop recomputes it from
  the two bounds; it is at least 1, which is why the loop ends.
\<close>

definition tickStep :: "int \<Rightarrow> int \<Rightarrow> int" where
  "tickStep minSeason maxSeason =
     (let span = maxSeason - minSeason;
          desired = 8
      in max 1 \<lceil>real_of_int span / desired\<rceil>)"

function ticksLoop :: "int \<Rightarrow> int \<Rightarrow> int \<Rightarrow> int list" where
  "ticksLoop minSeason maxSeason y =
     (if y \<le> maxSeason
      then y # ticksLoop minSeason maxSeason (y + tickStep minSeason maxSeason)
      else [])"
  by pat_completeness auto
termination
  by (relation "measure (\<lambda>(mn, mx, y). nat (mx - y + 1))") (auto simp: tickStep_def)

declare ticksLoop.simps [simp del]

text \<open>
  \<open>ticks[ticks.length - 1]\<close> of an empty array is \<open>undefined\<close>, which differs from every
  season, so the push happens then too.
\<close>

definition buildTicks :: "int \<Rightarrow> int \<Rightarrow> int list" where
  "buildTicks minSeason maxSeason =
     (let ticks = ticksLoop minSeason maxSeason minSeason
      in if ticks = [] then ticks @ [maxSeason]
         else if last ticks \<noteq> maxSeason then ticks @ [maxSeason]
         else ticks)"



section \<open>What a path draws\<close>

text \<open>
  The meaning of the commands, as SVG defines it: each command after the first draws one
  segment from the current point. \<open>T\<close> is a quadratic curve whose control point is the
  reflection of the previous quadratic control point in the current point (the current
  point itself when the previous command was not quadratic). A segment is the image of
  the unit interval under its Bezier polynomial.
\<close>

type_synonym pt = "real \<times> real"

datatype seg = Line pt pt | Quad pt pt pt | Cubic pt pt pt pt

fun segments :: "pt \<Rightarrow> pt \<Rightarrow> pt option \<Rightarrow> cmd list \<Rightarrow> seg list" where
  "segments start cur qc [] = []"
| "segments start cur qc (M x y # cs) = segments (x, y) (x, y) None cs"
| "segments start cur qc (L x y # cs) = Line cur (x, y) # segments start (x, y) None cs"
| "segments start cur qc (Q x1 y1 x y # cs) =
     Quad cur (x1, y1) (x, y) # segments start (x, y) (Some (x1, y1)) cs"
| "segments start cur qc (T x y # cs) =
     (let c = (case qc of None \<Rightarrow> cur
               | Some q \<Rightarrow> (2 * fst cur - fst q, 2 * snd cur - snd q))
      in Quad cur c (x, y) # segments start (x, y) (Some c) cs)"
| "segments start cur qc (C x1 y1 x2 y2 x y # cs) =
     Cubic cur (x1, y1) (x2, y2) (x, y) # segments start (x, y) None cs"
| "segments start cur qc (Z # cs) = Line cur start # segments start start None cs"

definition bezier1 :: "real \<Rightarrow> real \<Rightarrow> real \<Rightarrow> real" where
  "bezier1 a b t = (1 - t) * a + t * b"

definition bezier2 :: "real \<Rightarrow> real \<Rightarrow> real \<Rightarrow> real \<Rightarrow> real" where
  "bezier2 a b c t = (1 - t)\<^sup>2 * a + 2 * (1 - t) * t * b + t\<^sup>2 * c"

definition bezier3 :: "real \<Rightarrow> real \<Rightarrow> real \<Rightarrow> real \<Rightarrow> real \<Rightarrow> real" where
  "bezier3 a b c d t =
     (1 - t) ^ 3 * a + 3 * (1 - t)\<^sup>2 * t * b + 3 * (1 - t) * t\<^sup>2 * c + t ^ 3 * d"

fun seg_at :: "seg \<Rightarrow> real \<Rightarrow> pt" where
  "seg_at (Line p q) t = (bezier1 (fst p) (fst q) t, bezier1 (snd p) (snd q) t)"
| "seg_at (Quad p c q) t = (bezier2 (fst p) (fst c) (fst q) t, bezier2 (snd p) (snd c) (snd q) t)"
| "seg_at (Cubic p c d q) t =
     (bezier3 (fst p) (fst c) (fst d) (fst q) t, bezier3 (snd p) (snd c) (snd d) (snd q) t)"

definition seg_points :: "seg \<Rightarrow> pt set" where
  "seg_points s = {seg_at s t | t. 0 \<le> t \<and> t \<le> 1}"

definition drawn :: "cmd list \<Rightarrow> pt set" where
  "drawn cmds = (\<Union>s \<in> set (segments (0, 0) (0, 0) None cmds). seg_points s)"

text \<open>The straight segment between two points.\<close>

definition along :: "pt \<Rightarrow> pt \<Rightarrow> real \<Rightarrow> pt" where
  "along p q u = (fst p + u * (fst q - fst p), snd p + u * (snd q - snd p))"

definition straight :: "pt \<Rightarrow> pt \<Rightarrow> pt set" where
  "straight p q = {along p q u | u. 0 \<le> u \<and> u \<le> 1}"

text \<open>
  How far along the segment the cubic of a two-point Catmull-Rom path is at time \<open>t\<close>:
  its control points sit at 3/20 and 17/20 of the way.
\<close>

definition cr :: "real \<Rightarrow> real" where
  "cr t = 3 * (1 - t)\<^sup>2 * t * (3 / 20) + 3 * (1 - t) * t\<^sup>2 * (17 / 20) + t ^ 3"



section \<open>RadarChart\<close>

record radar_series =
  r_player_id :: int
  r_name :: string
  pts_per_game :: "real nullable"
  ast_per_game :: "real nullable"
  reb_per_game :: "real nullable"
  fg3_per_game :: "real nullable"
  ts_pct :: "real nullable"
  availability :: "real nullable"
  r_value_score :: "real nullable"

datatype radar_key =
  Pts_per_game | Ast_per_game | Reb_per_game | Fg3_per_game | Ts_pct | Availability | Value_score

text \<open>\<open>s[a.key]\<close>\<close>

fun radar_field :: "radar_key \<Rightarrow> radar_series \<Rightarrow> real nullable" where
  "radar_field Pts_per_game s = pts_per_game s"
| "radar_field Ast_per_game s = ast_per_game s"
| "radar_field Reb_per_game s = reb_per_game s"
| "radar_field Fg3_per_game s = fg3_per_game s"
| "radar_field Ts_pct s = ts_pct s"
| "radar_field Availability s = availability s"
| "radar_field Value_score s = r_value_score s"

definition radar_axes :: "(radar_key \<times> string) list" where
  "radar_axes =
     [(Pts_per_game, ''PTS''), (Ast_per_game, ''AST''), (Reb_per_game, ''REB''),
      (Fg3_per_game, ''3PM''), (Ts_pct, ''TS%''), (Availability, ''AVAIL''),
      (Value_score, ''VALUE'')]"

definition radar_size :: real where "radar_size = 360"
definition radar_center :: real where "radar_center = radar_size / 2"
definition radar_radius :: real where "radar_radius = radar_size / 2 - 30"

text \<open>
  \<open>maxPerAxis\<close> is filled for every axis key before it is read, so the object is a
  total function on the keys.
\<close>

definition maxPerAxis :: "radar_series list \<Rightarrow> radar_key \<Rightarrow> real" where
  "maxPerAxis series key =
     (let vals = map as_number (filter notNullish (map (radar_field key) series));
          maxVal = (if length vals \<noteq> 0 then math_max vals else 1)
      in or1 maxVal)"

text \<open>The divisor and the normalised value of \<open>buildPath\<close>.\<close>

definition radar_divisor :: "radar_series list \<Rightarrow> radar_key \<Rightarrow> real" where
  "radar_divisor series key = or1 (maxPerAxis series key)"

definition radar_val :: "radar_series list \<Rightarrow> radar_series \<Rightarrow> radar_key \<Rightarrow> real" where
  "radar_val all_series series key =
     (let raw = nullish_or (radar_field key series) 0;
          mx = radar_divisor all_series key;
          val = min (raw / mx) 1
      in val)"

definition radar_coords :: "radar_series list \<Rightarrow> radar_series \<Rightarrow> pt list" where
  "radar_coords all_series series =
     map (\<lambda>(idx, axis).
       (let val = radar_val all_series series (fst axis);
            angle = (pi * 2 * real idx) / real (length radar_axes) - pi / 2;
            x = radar_center + cos angle * radar_radius * val;
            y = radar_center + sin angle * radar_radius * val
        in (x, y))) (enumerate 0 radar_axes)"

text \<open>\<open>coords.map((c, i) => `${i === 0 ? "M" : "L"} ${c[0]} ${c[1]}`).join(" ") + " Z"\<close>\<close>

definition closed_path :: "pt list \<Rightarrow> cmd list" where
  "closed_path coords =
     map (\<lambda>(i, c). if i = 0 then M (fst c) (snd c) else L (fst c) (snd c)) (enumerate 0 coords)
     @ [Z]"

definition radar_buildPath :: "radar_series list \<Rightarrow> radar_series \<Rightarrow> cmd list" where
  "radar_buildPath all_series series = closed_path (radar_coords all_series series)"

definition radar_colors :: "string list" where
  "radar_colors = [''#f97316'', ''#38bdf8'', ''#a855f7'', ''#22c55e'', ''#f59e0b'']"

definition radar_color :: "nat \<Rightarrow> string" where
  "radar_color idx = radar_colors ! (idx mod length radar_colors)"

record radar_polygon =
  rp_color :: string
  rp_path :: "cmd list"
  rp_dots :: "pt list"
  rp_name :: string

definition RadarChart :: "radar_series list \<Rightarrow> radar_polygon list option" where
  "RadarChart series =
     (if length series = 0 then None
      else Some (map (\<lambda>(idx, s).
        \<lparr>rp_color = radar_color idx,
         rp_path = radar_buildPath series s,
         rp_dots = radar_coords series s,
         rp_name = r_name s\<rparr>) (enumerate 0 series)))"

section \<open>CountingGeometrySpider\<close>

record spider_series =
  s_player_id :: int
  s_name :: string
  efficiency :: real
  threes :: real
  s_points :: real
  rebounds :: real
  assists :: real
  steals :: real
  blocks :: real
  turnovers :: real
  s_distance :: "real nullable"

datatype spider_key =
  Efficiency | Threes | Points | Rebounds | Assists | Steals | Blocks | Turnovers

fun spider_field :: "spider_key \<Rightarrow> spider_series \<Rightarrow> real" where
  "spider_field Efficiency s = efficiency s"
| "spider_field Threes s = threes s"
| "spider_field Points s = s_points s"
| "spider_field Rebounds s = rebounds s"
| "spider_field Assists s = assists s"
| "spider_field Steals s = steals s"
| "spider_field Blocks s = blocks s"
| "spider_field Turnovers s = turnovers s"

definition spider_axes :: "(spider_key \<times> string) list" where
  "spider_axes =
     [(Efficiency, ''EFF''), (Threes, ''3PT''), (Points, ''PTS''), (Rebounds, ''REB''),
      (Assists, ''AST''), (Steals, ''STL''), (Blocks, ''BLK''), (Turnovers, ''TOV'')]"

definition spider_size :: real where "spider_size = 380"
definition spider_center :: real where "spider_center = spider_size / 2"
definition spider_radius :: real where "spider_radius = spider_size / 2 - 34"

definition palette :: "string list" where
  "palette = [''#f97316'', ''#a855f7'', ''#22c55e'', ''#f59e0b'', ''#fb7185'', ''#60a5fa'']"

definition seriesColor :: "nat \<Rightarrow> string" where
  "seriesColor idx =
     (if idx = 0 then ''#38bdf8''
      else palette ! ((idx - 1) mod length palette))"

text \<open>\<open>Math.max(0, Math.min(1, Number(s[axis.key]) || 0))\<close>\<close>

definition spider_val :: "spider_series \<Rightarrow> spider_key \<Rightarrow> real" where
  "spider_val s key = max 0 (min 1 (or0 (spider_field key s)))"

definition spider_coords :: "spider_series \<Rightarrow> pt list" where
  "spider_coords s =
     map (\<lambda>(idx, axis).
       (let v = spider_val s (fst axis);
            angle = (pi * 2 * real idx) / real (length spider_axes) - pi / 2;
            x = spider_center + cos angle * spider_radius * v;
            y = spider_center + sin angle * spider_radius * v
        in (x, y))) (enumerate 0 spider_axes)"









section \<open>SimilarList\<close>

text \<open>
  \<open>Number.isFinite\<close> separates the finite numbers from \<open>NaN\<close> and the two infinities, so
  the distance keeps them apart.
\<close>

datatype jsnum = Finite real | PosInfinity | NegInfinity | NaN

record comp =
  player_id :: int
  name :: string
  distance :: jsnum
  similarity_rank :: int

definition isFinite :: "jsnum \<Rightarrow> bool" where
  "isFinite d = (case d of Finite r \<Rightarrow> True | PosInfinity \<Rightarrow> False
                 | NegInfinity \<Rightarrow> False | NaN \<Rightarrow> False)"

text \<open>The number behind a finite distance; the sort only sees finite ones.\<close>

fun finite_val :: "jsnum \<Rightarrow> real" where
  "finite_val (Finite r) = r"

text \<open>
  \<open>[...comps].filter(...).sort((a, b) => a.distance - b.distance)\<close>. The sort of the
  language is stable; so is \<open>sort_key\<close>.
\<close>

definition sorted_comps :: "comp list \<Rightarrow> comp list" where
  "sorted_comps comps =
     sort_key (\<lambda>c. finite_val (distance c)) (filter (\<lambda>c. isFinite (distance c)) comps)"

record similar_card =
  sc_rank :: int
  sc_comp :: comp

text \<open>First version: the cards keep the order given and show the supplied rank.\<close>

definition SimilarList1 :: "comp list \<Rightarrow> similar_card list" where
  "SimilarList1 comps = map (\<lambda>c. \<lparr>sc_rank = similarity_rank c, sc_comp = c\<rparr>) comps"

text \<open>Second version: \<open>#{idx + 1}\<close> over the sorted list.\<close>

definition SimilarList2 :: "comp list \<Rightarrow> similar_card list" where
  "SimilarList2 comps =
     map (\<lambda>(idx, c). \<lparr>sc_rank = int idx + 1, sc_comp = c\<rparr>) (enumerate 0 (sorted_comps comps))"

section \<open>Example inputs\<close>

definition ex_comps :: "comp list" where
  "ex_comps =
     [\<lparr>player_id = 1, name = ''A'', distance = Finite 2, similarity_rank = 1\<rparr>,
      \<lparr>player_id = 2, name = ''B'', distance = NaN, similarity_rank = 2\<rparr>,
      \<lparr>player_id = 3, name = ''C'', distance = Finite 1, similarity_rank = 3\<rparr>]"

definition ex_radar :: "real nullable \<Rightarrow> real nullable \<Rightarrow> radar_series" where
  "ex_radar p v =
     \<lparr>r_player_id = 1, r_name = ''A'', pts_per_game = p, ast_per_game = Present 0,
      reb_per_game = Null, fg3_per_game = Present 1, ts_pct = Present 1,
      availability = Present 1, r_value_score = v\<rparr>"

definition ex_spider :: "int \<Rightarrow> real \<Rightarrow> spider_series" where
  "ex_spider n v =
     \<lparr>s_player_id = n, s_name = ''P'', efficiency = v, threes = v, s_points = v,
      rebounds = v, assists = v, steals = v, blocks = v, turnovers = v,
      s_distance = Null\<rparr>"


section \<open>Annotation placement\<close>

lemma annotationY_cases:
  "annotationY y = (if y - 60 < 10 then y + 40 else y - 60)"
  by (simp add: annotationY_def)

text \<open>
  C8. An annotated point's label is drawn 60 units above the point, unless that position
  would come within the guard band of 10 units at the top edge of the frame
  (\<open>y - 60 < 10\<close>, the top edge being \<open>y = 0\<close>); exactly then it is drawn 40 units
  below the point.
\<close>

theorem annotation_placement:
  "(annotationY y = y + 40 \<longleftrightarrow> y - 60 < 10) \<and>
   (annotationY y = y - 60 \<longleftrightarrow> \<not> y - 60 < 10) \<and>
   (m_annotation (mark_of xs ys t) =
      (if truthy (annotation t)
       then Some (nullish_or (annotation t) [],
         if m_y (mark_of xs ys t) - 60 < 10 then m_y (mark_of xs ys t) + 40
         else m_y (mark_of xs ys t) - 60)
       else None))"
  by (simp add: annotationY_cases mark_of_def Let_def)

theorem annotation_placement_witness:
  "annotationY 65 = 105 \<and> annotationY 70 = 10 \<and> annotationY 200 = 140"
  using annotation_placement [of 65] annotation_placement [of 70] annotation_placement [of 200]
  by simp

section \<open>Series colours\<close>

text \<open>
  In the radar chart the colour of index 0 comes back at index 5: no colour is kept for
  the first series there.
\<close>

theorem radar_color_counterexample: "\<not> (\<forall>k\<ge>1. radar_color k \<noteq> radar_color 0)"
proof
  assume "\<forall>k\<ge>1. radar_color k \<noteq> radar_color 0"
  then have "radar_color 5 \<noteq> radar_color 0" by simp
  then show False by (simp add: radar_color_def radar_colors_def)
qed

lemma palette_nth_neq: "i < 6 \<Longrightarrow> palette ! i \<noteq> ''#38bdf8''"
proof -
  assume "i < 6"
  then consider "i = 0" | "i = 1" | "i = 2" | "i = 3" | "i = 4" | "i = 5" by linarith
  then show ?thesis by cases (simp_all add: palette_def)
qed

text \<open>
  C2, amended. In the counting-geometry spider, index 0 gets the reserved colour
  \<open>#38bdf8\<close>, and every index \<open>k \<ge> 1\<close> gets the palette colour at \<open>(k - 1) mod 6\<close>, which
  is never the reserved one. In the radar chart every index, 0 included, gets the colour
  at \<open>k mod 5\<close> of its own list, so index 0 has no colour of its own there. Both are
  functions of the index alone.
\<close>

theorem series_color_assignment:
  "seriesColor 0 = ''#38bdf8'' \<and>
   (\<forall>k\<ge>1. seriesColor k = palette ! ((k - 1) mod length palette) \<and>
      seriesColor k \<in> set palette \<and> seriesColor k \<noteq> seriesColor 0) \<and>
   (\<forall>k. radar_color k = radar_colors ! (k mod length radar_colors))"
proof -
  have len: "length palette = 6" by (simp add: palette_def)
  have a: "seriesColor 0 = ''#38bdf8''" by (simp add: seriesColor_def)
  have b: "seriesColor k = palette ! ((k - 1) mod length palette) \<and>
      seriesColor k \<in> set palette \<and> seriesColor k \<noteq> seriesColor 0" if "k \<ge> 1" for k
  proof -
    have lt: "(k - 1) mod 6 < 6" by simp
    have e: "seriesColor k = palette ! ((k - 1) mod 6)"
      using that by (simp add: seriesColor_def len)
    have m: "palette ! ((k - 1) mod 6) \<in> set palette" using lt len by (metis nth_mem)
    show ?thesis using e m palette_nth_neq [OF lt] a len by simp
  qed
  show ?thesis using a b unfolding radar_color_def by blast
qed

theorem series_color_assignment_witness:
  "seriesColor 0 = ''#38bdf8'' \<and> seriesColor 7 = ''#f97316'' \<and>
   seriesColor 7 \<noteq> seriesColor 0 \<and> radar_color 7 = ''#a855f7''"
  using series_color_assignment by (simp add: palette_def radar_colors_def)

section \<open>The spider's legend\<close>



section \<open>The similar-players list\<close>

text \<open>
  C9. The second version of the list drops the entries whose distance is not finite,
  shows the rest by ascending distance (entries of equal distance in the order given),
  and numbers the cards 1, 2, ... in that order, whatever \<open>similarity_rank\<close> says.
\<close>

theorem similar_list_ranks:
  "map sc_comp (SimilarList2 comps) = sorted_comps comps \<and>
   mset (sorted_comps comps) = mset (filter (\<lambda>c. isFinite (distance c)) comps) \<and>
   sorted (map (\<lambda>c. finite_val (distance c)) (sorted_comps comps)) \<and>
   (\<forall>k. filter (\<lambda>c. finite_val (distance c) = k) (sorted_comps comps) =
        filter (\<lambda>c. finite_val (distance c) = k) (filter (\<lambda>c. isFinite (distance c)) comps)) \<and>
   map sc_rank (SimilarList2 comps) = map (\<lambda>i. int i + 1) [0..<length (sorted_comps comps)] \<and>
   (\<forall>i<length (SimilarList2 comps). sc_rank (SimilarList2 comps ! i) = int i + 1)"
proof -
  have a: "map sc_comp (SimilarList2 comps) = sorted_comps comps"
    by (simp add: SimilarList2_def comp_def case_prod_unfold)
  have b: "mset (sorted_comps comps) = mset (filter (\<lambda>c. isFinite (distance c)) comps)"
    by (simp add: sorted_comps_def)
  have c: "sorted (map (\<lambda>c. finite_val (distance c)) (sorted_comps comps))"
    by (simp add: sorted_comps_def)
  have d: "filter (\<lambda>c. finite_val (distance c) = k) (sorted_comps comps) =
        filter (\<lambda>c. finite_val (distance c) = k) (filter (\<lambda>c. isFinite (distance c)) comps)"
    for k
    unfolding sorted_comps_def by (rule sort_key_stable)
  have f: "sc_rank (SimilarList2 comps ! i) = int i + 1"
    if "i < length (SimilarList2 comps)" for i
    using that by (simp add: SimilarList2_def nth_enumerate_eq)
  have e: "map sc_rank (SimilarList2 comps) =
      map (\<lambda>i. int i + 1) [0..<length (sorted_comps comps)]"
    by (rule nth_equalityI) (simp_all add: SimilarList2_def nth_enumerate_eq)
  show ?thesis using a b c d e f by blast
qed

theorem similar_list_ranks_witness:
  "SimilarList2 ex_comps =
     [\<lparr>sc_rank = 1,
       sc_comp = \<lparr>player_id = 3, name = ''C'', distance = Finite 1, similarity_rank = 3\<rparr>\<rparr>,
      \<lparr>sc_rank = 2,
       sc_comp = \<lparr>player_id = 1, name = ''A'', distance = Finite 2, similarity_rank = 1\<rparr>\<rparr>]"
  using similar_list_ranks [of ex_comps]
  by (simp add: SimilarList2_def sorted_comps_def isFinite_def enumerate_eq_zip ex_comps_def)

section \<open>Normalisation in the radar chart\<close>

lemma math_max_const: "xs \<noteq> [] \<Longrightarrow> \<forall>x\<in>set xs. x = c \<Longrightarrow> math_max xs = c"
  by (induction xs rule: math_max.induct) auto

lemma or1_nonzero: "or1 x \<noteq> 0"
  by (simp add: or1_def)

text \<open>
  C3. The divisor of the normalisation is never zero. On an axis where every series has
  0 or no value, the per-axis maximum is 1 and every series of the set is normalised
  to 0.
\<close>

theorem zero_axis:
  "radar_divisor series key \<noteq> 0 \<and>
   ((\<forall>s\<in>set series. radar_field key s = Undefined \<or> radar_field key s = Null \<or>
        radar_field key s = Present 0) \<longrightarrow>
    maxPerAxis series key = 1 \<and> radar_divisor series key = 1 \<and>
    (\<forall>s\<in>set series. radar_val series s key = 0))"
proof -
  have nz: "radar_divisor series key \<noteq> 0" by (simp add: radar_divisor_def or1_nonzero)
  have z: "maxPerAxis series key = 1 \<and> radar_divisor series key = 1 \<and>
    (\<forall>s\<in>set series. radar_val series s key = 0)"
    if h: "\<forall>s\<in>set series. radar_field key s = Undefined \<or> radar_field key s = Null \<or>
        radar_field key s = Present 0"
  proof -
    let ?vals = "map as_number (filter notNullish (map (radar_field key) series))"
    have all0: "\<forall>x\<in>set ?vals. x = 0" using h by (auto simp: notNullish_def)
    have m: "maxPerAxis series key = 1"
    proof (cases "?vals = []")
      case True
      then show ?thesis by (simp add: maxPerAxis_def or1_def)
    next
      case False
      then have "math_max ?vals = 0" using all0 by (rule math_max_const)
      then show ?thesis using False by (simp add: maxPerAxis_def or1_def Let_def)
    qed
    have d: "radar_divisor series key = 1" by (simp add: radar_divisor_def m or1_def)
    have raw: "nullish_or (radar_field key s) 0 = 0" if "s \<in> set series" for s
      using h that by auto
    have v: "radar_val series s key = 0" if "s \<in> set series" for s
      by (simp add: radar_val_def d raw [OF that])
    show ?thesis using m d v by blast
  qed
  show ?thesis using nz z by blast
qed

theorem zero_axis_witness:
  "maxPerAxis [ex_radar (Present 10) Null, ex_radar Null (Present 2)] Ast_per_game = 1 \<and>
   maxPerAxis [ex_radar (Present 10) Null, ex_radar Null (Present 2)] Reb_per_game = 1 \<and>
   radar_val [ex_radar (Present 10) Null, ex_radar Null (Present 2)]
     (ex_radar (Present 10) Null) Ast_per_game = 0 \<and>
   radar_val [ex_radar (Present 10) Null, ex_radar Null (Present 2)]
     (ex_radar Null (Present 2)) Reb_per_game = 0"
  using zero_axis [of "[ex_radar (Present 10) Null, ex_radar Null (Present 2)]" Ast_per_game]
    zero_axis [of "[ex_radar (Present 10) Null, ex_radar Null (Present 2)]" Reb_per_game]
  by (simp add: ex_radar_def)

section \<open>Season ticks\<close>

lemma tickStep_pos: "1 \<le> tickStep mn mx"
  by (simp add: tickStep_def)

lemma tickStep_eq: "tickStep mn mx = max 1 \<lceil>real_of_int (mx - mn) / 8\<rceil>"
  by (simp add: tickStep_def)

lemma int_le_div_iff: "0 < s \<Longrightarrow> (k * s \<le> a) = (k \<le> a div s)" for s k a :: int
proof
  assume s: "0 < s" and "k * s \<le> a"
  then have "(k * s) div s \<le> a div s" by (intro zdiv_mono1)
  then show "k \<le> a div s" using s by simp
next
  assume s: "0 < s" and "k \<le> a div s"
  then have "k * s \<le> (a div s) * s" by (intro mult_right_mono) simp_all
  moreover have "(a div s) * s \<le> a"
  proof -
    have "a = (a div s) * s + a mod s" by simp
    moreover have "0 \<le> a mod s" using s by simp
    ultimately show ?thesis by linarith
  qed
  ultimately show "k * s \<le> a" by linarith
qed

text \<open>The loop from any start: the on-step seasons up to the maximum.\<close>

lemma ticksLoop_eq:
  "ticksLoop mn mx y =
     map (\<lambda>k. y + int k * tickStep mn mx) [0..<nat ((mx - y) div tickStep mn mx + 1)]"
proof (induction mn mx y rule: ticksLoop.induct)
  case (1 mn mx y)
  let ?s = "tickStep mn mx"
  have s: "1 \<le> ?s" by (rule tickStep_pos)
  show ?case
  proof (cases "y \<le> mx")
    case True
    have ih: "ticksLoop mn mx (y + ?s) =
        map (\<lambda>k. y + ?s + int k * ?s) [0..<nat ((mx - (y + ?s)) div ?s + 1)]"
      using "1" True by simp
    have d: "(mx - (y + ?s)) div ?s = (mx - y) div ?s - 1"
    proof -
      have "(mx - (y + ?s) + ?s) div ?s = (mx - (y + ?s)) div ?s + 1"
        using s by (intro div_add_self2) simp
      moreover have "mx - (y + ?s) + ?s = mx - y" by simp
      ultimately show ?thesis by simp
    qed
    have nn: "0 \<le> (mx - y) div ?s" using True s by (simp add: pos_imp_zdiv_nonneg_iff)
    have n: "nat ((mx - y) div ?s + 1) = Suc (nat ((mx - (y + ?s)) div ?s + 1))"
      using d nn by simp
    have "ticksLoop mn mx y = y # ticksLoop mn mx (y + ?s)"
      using True by (subst ticksLoop.simps) simp
    also have "\<dots> = y # map (\<lambda>k. y + ?s + int k * ?s) [0..<nat ((mx - (y + ?s)) div ?s + 1)]"
      by (simp only: ih)
    also have "\<dots> = map (\<lambda>k. y + int k * ?s) [0..<Suc (nat ((mx - (y + ?s)) div ?s + 1))]"
      by (simp add: upt_conv_Cons map_Suc_upt [symmetric] algebra_simps del: upt_Suc)
    finally show ?thesis by (simp only: n)
  next
    case False
    then have "(mx - y) div ?s < 0" using s by (simp add: pos_imp_zdiv_neg_iff)
    then have "nat ((mx - y) div ?s + 1) = 0" by simp
    moreover have "ticksLoop mn mx y = []" using False by (subst ticksLoop.simps) simp
    ultimately show ?thesis by simp
  qed
qed

text \<open>
  C6. For a season domain with \<open>min < max\<close> the step is \<open>max 1 (ceiling (span / 8))\<close>,
  the ticks are the seasons \<open>min + k * step\<close> that are at most \<open>max\<close>, in order, followed
  by \<open>max\<close> when the last of them is not \<open>max\<close>; so the last tick is always \<open>max\<close>.
\<close>

theorem season_ticks:
  assumes "mn < mx"
  shows "(let step = max 1 \<lceil>real_of_int (mx - mn) / 8\<rceil>;
              on_step = map (\<lambda>k. mn + int k * step) [0..<nat ((mx - mn) div step) + 1]
          in buildTicks mn mx = (if last on_step = mx then on_step else on_step @ [mx]) \<and>
             set on_step = {mn + int k * step | k. mn + int k * step \<le> mx}) \<and>
         last (buildTicks mn mx) = mx"
proof -
  let ?s = "tickStep mn mx"
  let ?n = "nat ((mx - mn) div ?s) + 1"
  let ?on = "map (\<lambda>k. mn + int k * ?s) [0..<?n]"
  have s: "1 \<le> ?s" by (rule tickStep_pos)
  have nn: "0 \<le> (mx - mn) div ?s" using assms s by (simp add: pos_imp_zdiv_nonneg_iff)
  have loop: "ticksLoop mn mx mn = ?on"
    using nn by (simp add: ticksLoop_eq nat_add_distrib del: upt_Suc)
  have ne: "?on \<noteq> []" by simp
  have bt: "buildTicks mn mx = (if last ?on = mx then ?on else ?on @ [mx])"
    unfolding buildTicks_def loop Let_def using ne by simp
  have lastmx: "last (buildTicks mn mx) = mx"
    unfolding bt by simp
  have set_on: "set ?on = {mn + int k * ?s | k. mn + int k * ?s \<le> mx}"
  proof -
    have "mn + int k * ?s \<le> mx \<longleftrightarrow> k < ?n" for k
    proof -
      have "mn + int k * ?s \<le> mx \<longleftrightarrow> int k * ?s \<le> mx - mn" by linarith
      also have "\<dots> \<longleftrightarrow> int k \<le> (mx - mn) div ?s"
        using s by (simp add: int_le_div_iff)
      also have "\<dots> \<longleftrightarrow> k < ?n" using nn by linarith
      finally show ?thesis .
    qed
    then show ?thesis by (auto simp del: upt_Suc)
  qed
  show ?thesis using bt set_on lastmx unfolding tickStep_eq Let_def by blast
qed

theorem season_ticks_witness:
  "(2003::int) < 2020 \<and> buildTicks 2003 2020 = [2003, 2006, 2009, 2012, 2015, 2018, 2020] \<and>
   last (buildTicks 2003 2020) = 2020"
  using season_ticks [of 2003 2020]
  by (simp add: Let_def upt_conv_Cons)

section \<open>Bounds of the normalised values\<close>

lemma spider_val_bounds: "0 \<le> spider_val s key \<and> spider_val s key \<le> 1"
  by (simp add: spider_val_def)

lemma radar_val_le_1: "radar_val ss s key \<le> 1"
  by (simp add: radar_val_def)

lemma math_max_nonneg: "xs \<noteq> [] \<Longrightarrow> \<forall>x\<in>set xs. (0::real) \<le> x \<Longrightarrow> 0 \<le> math_max xs"
  by (induction xs rule: math_max.induct) auto

lemma radar_val_nonneg:
  assumes "\<forall>t\<in>set ss. \<forall>x. radar_field key t = Present x \<longrightarrow> 0 \<le> x"
    and "s \<in> set ss"
  shows "0 \<le> radar_val ss s key \<and> radar_val ss s key \<le> 1"
proof -
  let ?vals = "map as_number (filter notNullish (map (radar_field key) ss))"
  have nn: "\<forall>x\<in>set ?vals. 0 \<le> x"
    using assms(1) by (auto simp: notNullish_def split: nullable.splits)
  have m: "0 < maxPerAxis ss key"
  proof (cases "?vals = []")
    case True
    then show ?thesis by (simp add: maxPerAxis_def or1_def)
  next
    case False
    then have "0 \<le> math_max ?vals" using nn by (rule math_max_nonneg)
    then show ?thesis using False by (simp add: maxPerAxis_def or1_def Let_def)
  qed
  then have d: "0 < radar_divisor ss key" by (simp add: radar_divisor_def or1_def)
  have raw: "0 \<le> nullish_or (radar_field key s) 0"
    using assms by (cases "radar_field key s") auto
  show ?thesis using d raw by (simp add: radar_val_def)
qed

text \<open>
  C1 at a failing input. The radar chart clamps from above only: with value scores 2 and
  -1 in the record set, the second series is normalised to -1/2 on the value axis, and
  its vertex lies on the far side of the centre.
\<close>

theorem radar_val_below_zero:
  "radar_val [ex_radar (Present 10) (Present 2), ex_radar (Present 5) (Present (- 1))]
     (ex_radar (Present 5) (Present (- 1))) Value_score = - (1 / 2) \<and>
   radar_coords [ex_radar (Present 10) (Present 2), ex_radar (Present 5) (Present (- 1))]
     (ex_radar (Present 5) (Present (- 1))) ! 6 =
     (radar_center + cos (2 * pi * 6 / 7 - pi / 2) * radar_radius * (- (1 / 2)),
      radar_center + sin (2 * pi * 6 / 7 - pi / 2) * radar_radius * (- (1 / 2)))"
proof -
  let ?ss = "[ex_radar (Present 10) (Present 2), ex_radar (Present 5) (Present (- 1))]"
  let ?s = "ex_radar (Present 5) (Present (- 1))"
  have m: "maxPerAxis ?ss Value_score = 2"
    by (simp add: maxPerAxis_def notNullish_def or1_def ex_radar_def)
  have raw: "r_value_score ?s = Present (- 1)" by (simp add: ex_radar_def)
  have v: "radar_val ?ss ?s Value_score = - (1 / 2)"
    by (simp add: radar_val_def radar_divisor_def m or1_def raw)
  have k: "radar_axes ! 6 = (Value_score, ''VALUE'')" by (simp add: radar_axes_def)
  have l: "length radar_axes = 7" by (simp add: radar_axes_def)
  have c: "radar_coords ?ss ?s ! 6 =
     (radar_center + cos (2 * pi * 6 / 7 - pi / 2) * radar_radius * (- (1 / 2)),
      radar_center + sin (2 * pi * 6 / 7 - pi / 2) * radar_radius * (- (1 / 2)))"
    unfolding radar_coords_def
    by (simp add: nth_enumerate_eq l k v Let_def mult.commute)
  show ?thesis using v c by blast
qed

section \<open>Radial vertices\<close>

text \<open>
  C4. In both charts the vertex of axis \<open>i\<close> of \<open>n\<close> with normalised value \<open>v\<close> is
  \<open>(center + cos (2 pi i / n - pi / 2) * radius * v, center + sin (2 pi i / n - pi / 2) * radius * v)\<close>;
  axis 0 with value 1 is the top of the circle, \<open>(center, center - radius)\<close>.
\<close>

theorem radial_vertex:
  assumes "i < length spider_axes" and "j < length radar_axes"
  shows "spider_coords s ! i =
           (spider_center + cos (2 * pi * real i / real (length spider_axes) - pi / 2)
              * spider_radius * spider_val s (fst (spider_axes ! i)),
            spider_center + sin (2 * pi * real i / real (length spider_axes) - pi / 2)
              * spider_radius * spider_val s (fst (spider_axes ! i))) \<and>
         radar_coords ss r ! j =
           (radar_center + cos (2 * pi * real j / real (length radar_axes) - pi / 2)
              * radar_radius * radar_val ss r (fst (radar_axes ! j)),
            radar_center + sin (2 * pi * real j / real (length radar_axes) - pi / 2)
              * radar_radius * radar_val ss r (fst (radar_axes ! j))) \<and>
         (spider_val s (fst (spider_axes ! 0)) = 1 \<longrightarrow>
            spider_coords s ! 0 = (spider_center, spider_center - spider_radius)) \<and>
         (radar_val ss r (fst (radar_axes ! 0)) = 1 \<longrightarrow>
            radar_coords ss r ! 0 = (radar_center, radar_center - radar_radius))"
proof -
  have ls: "0 < length spider_axes" by (simp add: spider_axes_def)
  have lr: "0 < length radar_axes" by (simp add: radar_axes_def)
  have sp: "spider_coords s ! k =
           (spider_center + cos (2 * pi * real k / real (length spider_axes) - pi / 2)
              * spider_radius * spider_val s (fst (spider_axes ! k)),
            spider_center + sin (2 * pi * real k / real (length spider_axes) - pi / 2)
              * spider_radius * spider_val s (fst (spider_axes ! k)))"
    if "k < length spider_axes" for k
    using that by (simp add: spider_coords_def nth_enumerate_eq Let_def mult.commute)
  have rd: "radar_coords ss r ! k =
           (radar_center + cos (2 * pi * real k / real (length radar_axes) - pi / 2)
              * radar_radius * radar_val ss r (fst (radar_axes ! k)),
            radar_center + sin (2 * pi * real k / real (length radar_axes) - pi / 2)
              * radar_radius * radar_val ss r (fst (radar_axes ! k)))"
    if "k < length radar_axes" for k
    using that by (simp add: radar_coords_def nth_enumerate_eq Let_def mult.commute)
  have s0: "spider_coords s ! 0 = (spider_center, spider_center - spider_radius)"
    if "spider_val s (fst (spider_axes ! 0)) = 1"
    using sp [OF ls] that by simp
  have r0: "radar_coords ss r ! 0 = (radar_center, radar_center - radar_radius)"
    if "radar_val ss r (fst (radar_axes ! 0)) = 1"
    using rd [OF lr] that by simp
  show ?thesis using sp [OF assms(1)] rd [OF assms(2)] s0 r0 by blast
qed

theorem radial_vertex_witness:
  "spider_coords (ex_spider 1 1) ! 0 = (190, 34) \<and>
   radar_coords [ex_radar (Present 10) Null] (ex_radar (Present 10) Null) ! 0 = (180, 30) \<and>
   spider_val (ex_spider 1 (1 / 2)) (fst (spider_axes ! 2)) = 1 / 2 \<and>
   spider_coords (ex_spider 1 (1 / 2)) ! 2 = (268, 190)"
proof -
  have a: "(0::nat) < length spider_axes" by (simp add: spider_axes_def)
  have a2: "(2::nat) < length spider_axes" by (simp add: spider_axes_def)
  have b: "(0::nat) < length radar_axes" by (simp add: radar_axes_def)
  have v: "spider_val (ex_spider 1 1) (fst (spider_axes ! 0)) = 1"
    by (simp add: spider_val_def spider_axes_def ex_spider_def or0_def)
  have v2: "spider_val (ex_spider 1 (1 / 2)) (fst (spider_axes ! 2)) = 1 / 2"
    by (simp add: spider_val_def spider_axes_def ex_spider_def or0_def)
  have w: "radar_val [ex_radar (Present 10) Null] (ex_radar (Present 10) Null) (fst (radar_axes ! 0)) = 1"
    by (simp add: radar_val_def radar_divisor_def maxPerAxis_def notNullish_def or1_def
        ex_radar_def radar_axes_def)
  have l8: "real (length spider_axes) = 8" by (simp add: spider_axes_def)
  have ang: "2 * pi * real (2::nat) / 8 - pi / 2 = 0" by simp
  show ?thesis
    using radial_vertex [OF a b, of "ex_spider 1 1" "[ex_radar (Present 10) Null]" "ex_radar (Present 10) Null"]
      radial_vertex [OF a2 b, of "ex_spider 1 (1 / 2)" "[ex_radar (Present 10) Null]" "ex_radar (Present 10) Null"]
      v w v2
    by (simp add: spider_center_def spider_radius_def spider_size_def
        radar_center_def radar_radius_def radar_size_def l8)
qed

section \<open>Paths of fewer than three points\<close>

lemma buildSmoothPath1_two:
  "buildSmoothPath1 [p, q] =
     [M (fst p) (snd p),
      Q (fst p) (snd p) ((fst p + fst q) / 2) ((snd p + snd q) / 2),
      T (fst q) (snd q)]"
  by (simp add: buildSmoothPath1_def Let_def)

lemma buildSmoothPath2_two:
  "buildSmoothPath2 [p, q] =
     [M (fst p) (snd p),
      C (fst p + ((fst q - fst p) / 6) * (9 / 10)) (snd p + ((snd q - snd p) / 6) * (9 / 10))
        (fst q - ((fst q - fst p) / 6) * (9 / 10)) (snd q - ((snd q - snd p) / 6) * (9 / 10))
        (fst q) (snd q)]"
  by (simp add: buildSmoothPath2_def Let_def clamp_def)

lemma bezier2_first: "bezier2 a a ((a + b) / 2) t = a + (t\<^sup>2 / 2) * (b - a)"
  by (simp add: bezier2_def power2_eq_square field_simps)

lemma bezier2_second: "bezier2 ((a + b) / 2) (2 * ((a + b) / 2) - a) b t = a + (1 - (1 - t)\<^sup>2 / 2) * (b - a)"
  by (simp add: bezier2_def power2_eq_square field_simps)

lemma bezier3_two:
  "bezier3 a (a + ((b - a) / 6) * (9 / 10)) (b - ((b - a) / 6) * (9 / 10)) b t = a + cr t * (b - a)"
  by (simp add: bezier3_def cr_def power2_eq_square power3_eq_cube field_simps)

lemma cr_range: assumes "0 \<le> t" "t \<le> 1" shows "0 \<le> cr t \<and> cr t \<le> 1"
proof -
  have u: "0 \<le> 1 - t" using assms by simp
  have a: "0 \<le> 3 * (1 - t)\<^sup>2 * t * (3 / 20)" using assms by simp
  have b: "0 \<le> 3 * (1 - t) * t\<^sup>2 * (17 / 20)" using assms u by simp
  have c: "0 \<le> t ^ 3" using assms by simp
  have lo: "0 \<le> cr t" unfolding cr_def using a b c by linarith
  have a': "0 \<le> 3 * (1 - t)\<^sup>2 * t * (17 / 20)" using assms by simp
  have b': "0 \<le> 3 * (1 - t) * t\<^sup>2 * (3 / 20)" using assms u by simp
  have c': "0 \<le> (1 - t) ^ 3" using u by simp
  have e: "1 - cr t = (1 - t) ^ 3 + 3 * (1 - t)\<^sup>2 * t * (17 / 20) + 3 * (1 - t) * t\<^sup>2 * (3 / 20)"
    by (simp add: cr_def power2_eq_square power3_eq_cube field_simps)
  have hi: "cr t \<le> 1" using e a' b' c' by linarith
  show ?thesis using lo hi by simp
qed

lemma cr_onto: assumes "0 \<le> u" "u \<le> 1" shows "\<exists>t. 0 \<le> t \<and> t \<le> 1 \<and> cr t = u"
proof -
  have c: "continuous_on {0..1} cr" unfolding cr_def by (intro continuous_intros)
  have "cr 0 \<le> u" "u \<le> cr 1" using assms by (simp_all add: cr_def)
  then show ?thesis using IVT' [of cr 0 u 1] c by simp
qed

lemma half_first: fixes t :: real assumes "0 \<le> t" "t \<le> 1" shows "0 \<le> t\<^sup>2 / 2 \<and> t\<^sup>2 / 2 \<le> 1"
proof -
  have "t\<^sup>2 \<le> 1" using assms by (simp add: power_le_one)
  then show ?thesis by simp
qed

lemma half_second: fixes t :: real assumes "0 \<le> t" "t \<le> 1"
  shows "0 \<le> 1 - (1 - t)\<^sup>2 / 2 \<and> 1 - (1 - t)\<^sup>2 / 2 \<le> 1"
proof -
  have "(1 - t)\<^sup>2 \<le> 1" using assms by (simp add: power_le_one)
  then show ?thesis by simp
qed

lemma quad_onto: fixes u :: real assumes "0 \<le> u" "u \<le> 1"
  shows "(\<exists>t::real. 0 \<le> t \<and> t \<le> 1 \<and> t\<^sup>2 / 2 = u) \<or> (\<exists>t::real. 0 \<le> t \<and> t \<le> 1 \<and> 1 - (1 - t)\<^sup>2 / 2 = u)"
proof (cases "u \<le> 1 / 2")
  case True
  let ?t = "sqrt (2 * u)"
  have "0 \<le> ?t" using assms by simp
  moreover have "?t \<le> 1" using True by (simp add: real_le_lsqrt)
  moreover have "?t\<^sup>2 / 2 = u" using assms by simp
  ultimately show ?thesis by blast
next
  case False
  let ?w = "sqrt (2 * (1 - u))"
  have w0: "0 \<le> ?w" using assms by simp
  have w1: "?w \<le> 1" using False by (simp add: real_le_lsqrt)
  have "(1 - (1 - ?w))\<^sup>2 = 2 * (1 - u)" using assms by simp
  then have "(1 - (1 - ?w))\<^sup>2 / 2 = 1 - u" by simp
  then have "1 - (1 - (1 - ?w))\<^sup>2 / 2 = u" by linarith
  moreover have "0 \<le> 1 - ?w" "1 - ?w \<le> 1" using w0 w1 by simp_all
  ultimately show ?thesis by blast
qed

lemma drawn1_two: "drawn (buildSmoothPath1 [p, q]) = straight p q"
proof -
  have seg: "segments (0, 0) (0, 0) None (buildSmoothPath1 [p, q]) =
      [Quad p p ((fst p + fst q) / 2, (snd p + snd q) / 2),
       Quad ((fst p + fst q) / 2, (snd p + snd q) / 2)
            (2 * ((fst p + fst q) / 2) - fst p, 2 * ((snd p + snd q) / 2) - snd p) q]"
    by (simp add: buildSmoothPath1_two Let_def)
  have f: "seg_at (Quad p p ((fst p + fst q) / 2, (snd p + snd q) / 2)) t = along p q (t\<^sup>2 / 2)" for t
    by (simp add: bezier2_first along_def)
  have g: "seg_at (Quad ((fst p + fst q) / 2, (snd p + snd q) / 2)
            (2 * ((fst p + fst q) / 2) - fst p, 2 * ((snd p + snd q) / 2) - snd p) q) t
         = along p q (1 - (1 - t)\<^sup>2 / 2)" for t
    by (simp only: seg_at.simps fst_conv snd_conv bezier2_second along_def)
  have sa: "seg_points (Quad p p ((fst p + fst q) / 2, (snd p + snd q) / 2)) =
      {along p q (t\<^sup>2 / 2) | t. 0 \<le> t \<and> t \<le> 1}"
    unfolding seg_points_def by (simp only: f)
  have sb: "seg_points (Quad ((fst p + fst q) / 2, (snd p + snd q) / 2)
            (2 * ((fst p + fst q) / 2) - fst p, 2 * ((snd p + snd q) / 2) - snd p) q) =
      {along p q (1 - (1 - t)\<^sup>2 / 2) | t. 0 \<le> t \<and> t \<le> 1}"
    unfolding seg_points_def by (simp only: g)
  have d: "drawn (buildSmoothPath1 [p, q]) =
      {along p q (t\<^sup>2 / 2) | t. 0 \<le> t \<and> t \<le> 1} \<union>
      {along p q (1 - (1 - t)\<^sup>2 / 2) | t. 0 \<le> t \<and> t \<le> 1}"
    unfolding drawn_def seg
    by (simp only: list.set UN_insert UN_empty Un_empty_right sa sb)
  show ?thesis
  proof (rule set_eqI, rule iffI)
    fix x assume "x \<in> drawn (buildSmoothPath1 [p, q])"
    then consider t where "0 \<le> t" "t \<le> 1" "x = along p q (t\<^sup>2 / 2)"
      | t where "0 \<le> t" "t \<le> 1" "x = along p q (1 - (1 - t)\<^sup>2 / 2)"
      unfolding d by blast
    then show "x \<in> straight p q"
    proof cases
      case 1
      then show ?thesis unfolding straight_def using half_first [of t] by blast
    next
      case 2
      then show ?thesis unfolding straight_def using half_second [of t] by blast
    qed
  next
    fix x assume "x \<in> straight p q"
    then obtain u where u: "0 \<le> u" "u \<le> 1" "x = along p q u"
      unfolding straight_def by blast
    from quad_onto [OF u(1,2)] show "x \<in> drawn (buildSmoothPath1 [p, q])"
      unfolding d using u(3) by blast
  qed
qed

lemma drawn2_two: "drawn (buildSmoothPath2 [p, q]) = straight p q"
proof -
  have f: "seg_at (Cubic p (fst p + ((fst q - fst p) / 6) * (9 / 10), snd p + ((snd q - snd p) / 6) * (9 / 10))
        (fst q - ((fst q - fst p) / 6) * (9 / 10), snd q - ((snd q - snd p) / 6) * (9 / 10)) q) t
      = along p q (cr t)" for t
    by (simp only: seg_at.simps fst_conv snd_conv bezier3_two along_def)
  have sa: "seg_points (Cubic p (fst p + ((fst q - fst p) / 6) * (9 / 10), snd p + ((snd q - snd p) / 6) * (9 / 10))
        (fst q - ((fst q - fst p) / 6) * (9 / 10), snd q - ((snd q - snd p) / 6) * (9 / 10)) q) =
      {along p q (cr t) | t. 0 \<le> t \<and> t \<le> 1}"
    unfolding seg_points_def by (simp only: f)
  have d: "drawn (buildSmoothPath2 [p, q]) = {along p q (cr t) | t. 0 \<le> t \<and> t \<le> 1}"
    unfolding drawn_def buildSmoothPath2_two
    by (simp only: segments.simps list.set UN_insert UN_empty Un_empty_right sa prod.collapse)
  show ?thesis
  proof (rule set_eqI, rule iffI)
    fix x assume "x \<in> drawn (buildSmoothPath2 [p, q])"
    then obtain t where "0 \<le> t" "t \<le> 1" "x = along p q (cr t)" unfolding d by blast
    then show "x \<in> straight p q" unfolding straight_def using cr_range [of t] by blast
  next
    fix x assume "x \<in> straight p q"
    then obtain u where u: "0 \<le> u" "u \<le> 1" "x = along p q u"
      unfolding straight_def by blast
    from cr_onto [OF u(1,2)] show "x \<in> drawn (buildSmoothPath2 [p, q])"
      unfolding d using u(3) by blast
  qed
qed

text \<open>
  C5. With fewer than two points both curve builders return the empty path, which draws
  nothing. With exactly two points what is drawn is exactly the straight segment between
  them: every point of the curve is on the segment, and every point of the segment is on
  the curve.
\<close>

theorem two_point_path:
  "(length pts < 2 \<longrightarrow> buildSmoothPath1 pts = [] \<and> buildSmoothPath2 pts = [] \<and>
      drawn (buildSmoothPath1 pts) = {} \<and> drawn (buildSmoothPath2 pts) = {}) \<and>
   drawn (buildSmoothPath1 [p, q]) = straight p q \<and>
   drawn (buildSmoothPath2 [p, q]) = straight p q"
  using drawn1_two [of p q] drawn2_two [of p q]
  by (simp add: buildSmoothPath1_def buildSmoothPath2_def drawn_def)

theorem two_point_path_witness:
  "buildSmoothPath1 [(3, 4)] = [] \<and> buildSmoothPath2 [(3, 4)] = [] \<and>
   (5, 10) \<in> drawn (buildSmoothPath1 [(0, 0), (10, 20)]) \<and>
   (5, 10) \<in> drawn (buildSmoothPath2 [(0, 0), (10, 20)])"
proof -
  have "along (0, 0) (10, 20) (1 / 2) = (5, 10)" by (simp add: along_def)
  then have "(5, 10) \<in> straight (0, 0) (10, 20)"
    unfolding straight_def by (intro CollectI exI [of _ "1 / 2"]) simp
  then show ?thesis
    using two_point_path [of "[(3, 4)]" "(0, 0)" "(10, 20)"] by simp
qed

section \<open>Only the points with a value are plotted\<close>



















end
